theory Spec2Isabelle
  imports Main "HOL-Library.Multiset"
    "HOL-Library.Char_ord" "HOL-Library.List_Lexorder"
begin

section \<open>The match orchestrator of node-glob: \<open>src/glob.ts\<close>\<close>

text \<open>
  The class \<open>Glob\<close> compiles every input pattern with \<open>Minimatch\<close>, walks every compiled
  alternative with a \<open>GlobWalker\<close>, and reduces the walkers' result sets to the output
  array (\<open>doNonull\<close>, \<open>finish\<close>, \<open>sort\<close>).

  Three collaborators are not part of \<open>glob.ts\<close> and are parameters of the embedding:
  \<^item> \<open>Minimatch\<close>, the pattern compiler (\<open>new Minimatch(p, mmo)\<close>), which may throw;
  \<^item> \<open>GlobWalker\<close>, the traversal engine (\<open>walkSync()\<close>), which reads the file system,
    may throw, and returns a reference to a \<open>Set<string>\<close>;
  \<^item> \<open>String.prototype.localeCompare(b, 'en')\<close>, the collation of the runtime.
\<close>

subsection \<open>JavaScript values\<close>

text \<open>
  A member of a result set is a string, or \<open>undefined\<close> (\<open>None\<close>): \<open>this.globSet[i]\<close> is
  \<open>undefined\<close> when \<open>i\<close> is out of range, and \<open>doNonull\<close> adds what it reads.
\<close>

type_synonym member = "string option"

definition nth_js :: "'a list \<Rightarrow> nat \<Rightarrow> 'a option" where
  "nth_js xs i = (if i < length xs then Some (xs ! i) else None)"

text \<open>\<open>!!x\<close> for an optional boolean field.\<close>

definition truthy :: "bool option \<Rightarrow> bool" where
  "truthy x = (x = Some True)"

text \<open>\<open>s.replace(/\\/g, '/')\<close>; the backslash is character \<open>0x5C\<close>.\<close>

definition replace_backslashes :: "string \<Rightarrow> string" where
  "replace_backslashes s = map (\<lambda>c. if c = CHR 0x5C then CHR ''/'' else c) s"

subsection \<open>\<open>Set<string>\<close> and the store\<close>

text \<open>
  A JavaScript \<open>Set\<close> keeps its members in insertion order and holds none twice: a distinct
  list. \<open>add\<close> appends a member that is not there yet.
\<close>

typedef 'a js_set = "{xs :: 'a list. distinct xs}"
  morphisms elems Abs_js_set
proof
  show "[] \<in> {xs :: 'a list. distinct xs}" by simp
qed

setup_lifting type_definition_js_set

type_synonym strset = "member js_set"

lift_definition empty_Set :: "'a js_set" is "[]"
  by simp

lift_definition set_add :: "'a \<Rightarrow> 'a js_set \<Rightarrow> 'a js_set" is
  "\<lambda>x xs. if x \<in> set xs then xs else xs @ [x]"
  by auto

definition set_size :: "'a js_set \<Rightarrow> nat" where
  "set_size s = length (elems s)"

text \<open>
  Sets are objects: two entries of the array \<open>matches\<close> may be the same \<open>Set\<close>, and
  \<open>doNonull\<close> mutates \<open>matches[0]\<close> in place. The store maps a reference to the set it
  denotes; \<open>ext\<close> is everything else the walkers read and write (file system, cache).
\<close>

type_synonym ref = nat

record 'w world =
  cells :: "ref \<Rightarrow> strset"
  next_ref :: ref
  ext :: 'w

text \<open>\<open>new Set()\<close>\<close>

definition new_Set :: "'w world \<Rightarrow> ref \<times> 'w world" where
  "new_Set w =
     (next_ref w,
      w\<lparr>cells := (cells w)(next_ref w := empty_Set), next_ref := Suc (next_ref w)\<rparr>)"

subsection \<open>Options, errors and the \<open>Glob\<close> object\<close>

datatype ignore_arg = IgnoreStr string | IgnoreList "string list"

datatype pattern_arg = PStr string | PList "string list"

text \<open>
  \<open>GlobOptions extends MinimatchOptions\<close>: every field is optional. Only the fields that
  \<open>glob.ts\<close> reads are listed. A \<open>Glob\<close> passed as \<open>options\<close> is the record with its own
  fields set and \<open>allowWindowsEscape\<close> absent.
\<close>

record 'c glob_options =
  opt_ignore :: "ignore_arg option"
  opt_follow :: "bool option"
  opt_dot :: "bool option"
  opt_mark :: "bool option"
  opt_nodir :: "bool option"
  opt_nounique :: "bool option"
  opt_nosort :: "bool option"
  opt_cwd :: "string option"
  opt_realpath :: "bool option"
  opt_nonull :: "bool option"
  opt_absolute :: "bool option"
  opt_cache :: "'c option"
  opt_noglobstar :: "bool option"
  opt_matchBase :: "bool option"
  opt_windowsPathsNoEscape :: "bool option"
  opt_allowWindowsEscape :: "bool option"

text \<open>\<open>mmo = { ...options, nonegate: true, nocomment: true, preserveMultipleSlashes: true }\<close>\<close>

record 'c minimatch_options =
  mmo_options :: "'c glob_options"
  nonegate :: bool
  nocomment :: bool
  preserveMultipleSlashes :: bool

text \<open>
  The three arrays of a \<open>Minimatch\<close> object that the constructor reads. \<open>glob.ts\<close> types
  \<open>globSet\<close> and \<open>globParts\<close> with \<open>undefined\<close> excluded and spreads them as arrays; so
  does the model.
\<close>

record 'm minimatch =
  mm_set :: "'m list"
  mm_globSet :: "string list"
  mm_globParts :: "string list list"

text \<open>
  \<open>TypeError msg\<close> is \<open>throw new TypeError(msg)\<close>; \<open>NotIterable\<close> is the \<open>TypeError\<close> of the
  runtime when \<open>[...matches[0]]\<close> spreads \<open>undefined\<close>; the other two carry what a
  collaborator threw.
\<close>

datatype 'e glob_error =
  TypeError string
  | NotIterable
  | CompileError 'e
  | WalkError 'e

text \<open>\<open>options.cache || Object.create(null)\<close>\<close>

datatype 'c glob_cache = Cache 'c | EmptyCache

record ('m, 'c) glob =
  pattern :: "string list"
  ignore :: "ignore_arg option"
  follow :: bool
  dot :: bool
  mark :: bool
  nodir :: bool
  nounique :: bool
  nosort :: bool
  cwd :: string
  matchSet :: "'m list"
  globSet :: "string list"
  globParts :: "string list list"
  realpath :: bool
  nonull :: bool
  absolute :: bool
  matchBase :: bool
  windowsPathsNoEscape :: bool
  noglobstar :: bool
  cache :: "'c glob_cache"
  matches :: "ref option"

subsection \<open>The constructor\<close>

text \<open>\<open>this.pattern.map(p => new Minimatch(p, mmo))\<close>: the first compilation that throws ends it.\<close>

fun compile_all ::
  "(string \<Rightarrow> 'c minimatch_options \<Rightarrow> 'e + 'm minimatch) \<Rightarrow> 'c minimatch_options \<Rightarrow>
   string list \<Rightarrow> 'e glob_error + 'm minimatch list" where
  "compile_all Minimatch mmo [] = Inr []"
| "compile_all Minimatch mmo (p # ps) =
     (case Minimatch p mmo of
        Inl e \<Rightarrow> Inl (CompileError e)
      | Inr m \<Rightarrow>
          (case compile_all Minimatch mmo ps of
             Inl e \<Rightarrow> Inl e
           | Inr ms \<Rightarrow> Inr (m # ms)))"

text \<open>The callback of \<open>mms.reduce\<close>: three \<open>push(...)\<close>.\<close>

definition push_sets ::
  "'m list \<times> string list \<times> string list list \<Rightarrow> 'm minimatch \<Rightarrow>
   'm list \<times> string list \<times> string list list" where
  "push_sets acc m =
     (case acc of (s0, s1, s2) \<Rightarrow> (s0 @ mm_set m, s1 @ mm_globSet m, s2 @ mm_globParts m))"

text \<open>\<open>p.includes('/') ? p : `**/${p}`\<close>\<close>

definition base_pattern :: "string \<Rightarrow> string" where
  "base_pattern p = (if CHR ''/'' \<in> set p then p else ''**/'' @ p)"

text \<open>
  \<open>new Glob(pattern, options)\<close> on the platform \<open>process.platform\<close>. The statements are in
  the order of the source; a \<open>throw\<close> ends the construction with \<open>Inl\<close>.
\<close>

definition Glob_new ::
  "string \<Rightarrow> (string \<Rightarrow> 'c minimatch_options \<Rightarrow> 'e + 'm minimatch) \<Rightarrow>
   pattern_arg \<Rightarrow> 'c glob_options \<Rightarrow> 'w world \<Rightarrow>
   'e glob_error + (('m, 'c) glob \<times> 'w world)" where
  "Glob_new platform Minimatch pattern_in options w =
     (let this_nounique = truthy (opt_nounique options);
          (this_matches, w1) =
             (if \<not> this_nounique
              then (case new_Set w of (r, w') \<Rightarrow> (Some r, w'))
              else (None, w));
          cwd0 = (case opt_cwd options of None \<Rightarrow> [] | Some s \<Rightarrow> s);
          this_cwd = (if platform = ''win32'' then replace_backslashes cwd0 else cwd0);
          this_cache = (case opt_cache options of None \<Rightarrow> EmptyCache | Some c \<Rightarrow> Cache c);
          this_noglobstar = truthy (opt_noglobstar options);
          this_matchBase = truthy (opt_matchBase options);
          pattern1 = (case pattern_in of PStr s \<Rightarrow> [s] | PList ps \<Rightarrow> ps);
          this_windowsPathsNoEscape =
             (truthy (opt_windowsPathsNoEscape options)
              \<or> opt_allowWindowsEscape options = Some False);
          pattern2 =
             (if this_windowsPathsNoEscape then map replace_backslashes pattern1
              else pattern1)
      in if this_matchBase \<and> truthy (opt_noglobstar options)
         then Inl (TypeError ''base matching requires globstar'')
         else
           (let this_pattern =
                  (if this_matchBase then map base_pattern pattern2 else pattern2);
                mmo = \<lparr>mmo_options = options, nonegate = True, nocomment = True,
                        preserveMultipleSlashes = True\<rparr>
            in case compile_all Minimatch mmo this_pattern of
                 Inl e \<Rightarrow> Inl e
               | Inr mms \<Rightarrow>
                   (case foldl push_sets ([], [], []) mms of
                      (matchSet', globSet', globParts') \<Rightarrow>
                        Inr (\<lparr>pattern = this_pattern,
                              ignore = opt_ignore options,
                              follow = truthy (opt_follow options),
                              dot = truthy (opt_dot options),
                              mark = truthy (opt_mark options),
                              nodir = truthy (opt_nodir options),
                              nounique = this_nounique,
                              nosort = truthy (opt_nosort options),
                              cwd = this_cwd,
                              matchSet = matchSet',
                              globSet = globSet',
                              globParts = globParts',
                              realpath = truthy (opt_realpath options),
                              nonull = truthy (opt_nonull options),
                              absolute = truthy (opt_absolute options),
                              matchBase = this_matchBase,
                              windowsPathsNoEscape = this_windowsPathsNoEscape,
                              noglobstar = this_noglobstar,
                              cache = this_cache,
                              matches = this_matches\<rparr>, w1))))"

text \<open>
  What the constructor relies on in the compiler: a \<open>Minimatch\<close> object has one entry per
  alternative in each of its three arrays.
\<close>

definition aligned_Minimatch ::
  "(string \<Rightarrow> 'c minimatch_options \<Rightarrow> 'e + 'm minimatch) \<Rightarrow> bool" where
  "aligned_Minimatch Minimatch \<longleftrightarrow>
     (\<forall>p mmo m. Minimatch p mmo = Inr m \<longrightarrow>
        length (mm_set m) = length (mm_globSet m)
        \<and> length (mm_globParts m) = length (mm_globSet m))"

subsection \<open>Walking\<close>

text \<open>
  \<open>new Pattern(set, this.globParts[i], 0)\<close> and \<open>new GlobWalker(pattern, '', this, false)\<close>
  are kept as the tuples of their arguments; \<open>this.globParts[i]\<close> is \<open>undefined\<close> out of
  range. What a walker does with them is the parameter \<open>walkSync\<close>: it receives the
  \<open>Glob\<close> itself (with \<open>this.matches\<close> and \<open>this.cache\<close>), may read and change the world,
  and returns a reference to a set, or throws.
\<close>

datatype 'm Pattern = Pattern 'm "string list option" nat

datatype ('m, 'c) GlobWalker = GlobWalker "'m Pattern" string "('m, 'c) glob" bool

definition getWalker :: "('m, 'c) glob \<Rightarrow> 'm Pattern \<Rightarrow> ('m, 'c) GlobWalker" where
  "getWalker this p = GlobWalker p [] this False"

text \<open>
  \<open>this.matchSet.map((set, i) => ... walkSync())\<close>: one walker after the other, in index
  order, each in the world the previous one left; \<open>i\<close> is the index of the head of the list.
\<close>

fun walkAllSync ::
  "(('m, 'c) GlobWalker \<Rightarrow> 'w world \<Rightarrow> 'e + (ref \<times> 'w world)) \<Rightarrow> ('m, 'c) glob \<Rightarrow>
   nat \<Rightarrow> 'm list \<Rightarrow> 'w world \<Rightarrow> 'e glob_error + (ref list \<times> 'w world)" where
  "walkAllSync walkSync this i [] w = Inr ([], w)"
| "walkAllSync walkSync this i (s # ss) w =
     (case walkSync (getWalker this (Pattern s (nth_js (globParts this) i) 0)) w of
        Inl e \<Rightarrow> Inl (WalkError e)
      | Inr (r, w1) \<Rightarrow>
          (case walkAllSync walkSync this (Suc i) ss w1 of
             Inl e \<Rightarrow> Inl e
           | Inr (rs, w2) \<Rightarrow> Inr (r # rs, w2)))"

subsection \<open>\<open>doNonull\<close>\<close>

text \<open>
  The \<open>forEach\<close> of \<open>doNonull\<close>: \<open>nulls\<close> collects \<open>this.globSet[i]\<close> for every index \<open>i\<close> whose
  set is empty, if \<open>nonull\<close> is set. All sizes are read before any set is changed.
\<close>

fun collect_nulls :: "('m, 'c) glob \<Rightarrow> 'w world \<Rightarrow> nat \<Rightarrow> ref list \<Rightarrow> member list" where
  "collect_nulls this w i [] = []"
| "collect_nulls this w i (r # rs) =
     (if set_size (cells w r) = 0 \<and> nonull this then [nth_js (globSet this) i] else [])
       @ collect_nulls this w (Suc i) rs"

text \<open>
  \<open>for (const n of nulls) matches[0].add(n)\<close>. With no set at all there is no null either,
  and \<open>matches[0]\<close> is not touched. The array \<open>matches\<close> is returned as it came; the change
  is in the store.
\<close>

definition doNonull :: "('m, 'c) glob \<Rightarrow> ref list \<Rightarrow> 'w world \<Rightarrow> 'w world" where
  "doNonull this ms w =
     (let nulls = collect_nulls this w 0 ms
      in case ms of
           [] \<Rightarrow> w
         | r0 # _ \<Rightarrow> w\<lparr>cells := (cells w)(r0 := fold set_add nulls (cells w r0))\<rparr>)"

subsection \<open>\<open>sort\<close>\<close>

text \<open>
  \<open>flat.sort((a, b) => a.localeCompare(b, 'en'))\<close>. \<open>Array.prototype.sort\<close> compares two
  elements with \<open>SortCompare\<close>: \<open>undefined\<close> goes last without the callback being asked,
  two strings are compared by the callback. The sort is stable, and with a consistent
  comparator its result is the one stable sorted permutation, which insertion from the
  right computes. \<open>localeCompare\<close> is a parameter.
\<close>

definition SortCompare :: "(string \<Rightarrow> string \<Rightarrow> int) \<Rightarrow> member \<Rightarrow> member \<Rightarrow> int" where
  "SortCompare localeCompare x y =
     (case x of
        None \<Rightarrow> (case y of None \<Rightarrow> 0 | Some b \<Rightarrow> 1)
      | Some a \<Rightarrow> (case y of None \<Rightarrow> - 1 | Some b \<Rightarrow> localeCompare a b))"

fun insert_sorted :: "('a \<Rightarrow> 'a \<Rightarrow> int) \<Rightarrow> 'a \<Rightarrow> 'a list \<Rightarrow> 'a list" where
  "insert_sorted c x [] = [x]"
| "insert_sorted c x (y # ys) =
     (if c x y \<le> 0 then x # y # ys else y # insert_sorted c x ys)"

definition sort_js :: "(string \<Rightarrow> string \<Rightarrow> int) \<Rightarrow> member list \<Rightarrow> member list" where
  "sort_js localeCompare flat = foldr (insert_sorted (SortCompare localeCompare)) flat []"

text \<open>
  What ECMAScript requires of \<open>localeCompare\<close>, as far as sorting needs it: any two strings
  are comparable, and \<open>\<le>\<close> is transitive.
\<close>

definition consistent_comparator :: "(string \<Rightarrow> string \<Rightarrow> int) \<Rightarrow> bool" where
  "consistent_comparator c \<longleftrightarrow>
     (\<forall>a b. c a b \<le> 0 \<or> c b a \<le> 0) \<and>
     (\<forall>a b d. c a b \<le> 0 \<and> c b d \<le> 0 \<longrightarrow> c a d \<le> 0)"

subsection \<open>\<open>finish\<close>, \<open>processSync\<close>, \<open>process\<close>\<close>

text \<open>
  \<open>finish\<close>: \<open>[...matches[0]]\<close> throws when \<open>matches\<close> is empty (\<open>matches[0]\<close> is
  \<open>undefined\<close>); otherwise \<open>raw\<close> starts as the members of \<open>matches[0]\<close>, and with
  \<open>nounique\<close> the members of every set of \<open>matches\<close> are pushed, in order.
\<close>

definition finish ::
  "(string \<Rightarrow> string \<Rightarrow> int) \<Rightarrow> ('m, 'c) glob \<Rightarrow> ref list \<Rightarrow> 'w world \<Rightarrow>
   'e glob_error + member list" where
  "finish localeCompare this ms w =
     (case ms of
        [] \<Rightarrow> Inl NotIterable
      | r0 # _ \<Rightarrow>
          (let raw0 = elems (cells w r0);
               raw = (if nounique this
                      then fold (\<lambda>r acc. acc @ elems (cells w r)) ms raw0
                      else raw0)
           in Inr (if nosort this then raw else sort_js localeCompare raw)))"

text \<open>\<open>this.finish(this.doNonull(matches))\<close>, with the world that \<open>doNonull\<close> leaves.\<close>

definition finish_doNonull ::
  "(string \<Rightarrow> string \<Rightarrow> int) \<Rightarrow> ('m, 'c) glob \<Rightarrow> ref list \<Rightarrow> 'w world \<Rightarrow>
   'e glob_error + (member list \<times> 'w world)" where
  "finish_doNonull localeCompare this ms w =
     (let w' = doNonull this ms w
      in case finish localeCompare this ms w' of
           Inl e \<Rightarrow> Inl e
         | Inr out \<Rightarrow> Inr (out, w'))"

definition processSync ::
  "(string \<Rightarrow> string \<Rightarrow> int) \<Rightarrow>
   (('m, 'c) GlobWalker \<Rightarrow> 'w world \<Rightarrow> 'e + (ref \<times> 'w world)) \<Rightarrow> ('m, 'c) glob \<Rightarrow>
   'w world \<Rightarrow> 'e glob_error + (member list \<times> 'w world)" where
  "processSync localeCompare walkSync this w =
     (case walkAllSync walkSync this 0 (matchSet this) w of
        Inl e \<Rightarrow> Inl e
      | Inr (ms, w1) \<Rightarrow> finish_doNonull localeCompare this ms w1)"

text \<open>
  \<open>process\<close> awaits \<open>Promise.all\<close> over one walker promise per entry of \<open>matchSet\<close>. How the
  walkers interleave is not modelled: \<open>awaited\<close> is what the \<open>await\<close> yields, the rejection
  of a walker or the array of the sets (one per entry of \<open>matchSet\<close>, in index order) with
  the world as the walkers left it. \<open>process\<close> is the code after the \<open>await\<close>.
\<close>

definition process ::
  "(string \<Rightarrow> string \<Rightarrow> int) \<Rightarrow> ('m, 'c) glob \<Rightarrow> 'e + (ref list \<times> 'w world) \<Rightarrow>
   'e glob_error + (member list \<times> 'w world)" where
  "process localeCompare this awaited =
     (case awaited of
        Inl e \<Rightarrow> Inl (WalkError e)
      | Inr (ms, w1) \<Rightarrow> finish_doNonull localeCompare this ms w1)"

subsection \<open>Sample inputs\<close>

text \<open>\<open>options = {}\<close>, the default of the constructor.\<close>

definition no_options :: "unit glob_options" where
  "no_options =
     \<lparr>opt_ignore = None, opt_follow = None, opt_dot = None, opt_mark = None,
      opt_nodir = None, opt_nounique = None, opt_nosort = None, opt_cwd = None,
      opt_realpath = None, opt_nonull = None, opt_absolute = None, opt_cache = None,
      opt_noglobstar = None, opt_matchBase = None, opt_windowsPathsNoEscape = None,
      opt_allowWindowsEscape = None\<rparr>"

text \<open>A store with no set in it.\<close>

definition empty_world :: "unit world" where
  "empty_world = \<lparr>cells = (\<lambda>r. empty_Set), next_ref = 0, ext = ()\<rparr>"

text \<open>
  Two compilers for the examples; neither throws. \<open>sample_Minimatch\<close> has no brace
  expansion: one alternative per pattern, the pattern itself. \<open>brace_Minimatch\<close> reads
  every pattern \<open>p\<close> as \<open>p{a,b}\<close>: two alternatives.
\<close>

definition sample_Minimatch ::
  "string \<Rightarrow> unit minimatch_options \<Rightarrow> unit + string minimatch" where
  "sample_Minimatch p mmo = Inr \<lparr>mm_set = [p], mm_globSet = [p], mm_globParts = [[p]]\<rparr>"

definition brace_Minimatch ::
  "string \<Rightarrow> unit minimatch_options \<Rightarrow> unit + string minimatch" where
  "brace_Minimatch p mmo =
     Inr \<lparr>mm_set = [p @ ''a'', p @ ''b''], mm_globSet = [p @ ''a'', p @ ''b''],
          mm_globParts = [[p @ ''a''], [p @ ''b'']]\<rparr>"

text \<open>A comparator for the examples: the order of the character codes.\<close>

definition code_compare :: "string \<Rightarrow> string \<Rightarrow> int" where
  "code_compare a b = (if a < b then - 1 else if a = b then 0 else 1)"

text \<open>Options with a Windows \<open>cwd\<close> and the legacy flag \<open>allowWindowsEscape: false\<close>.\<close>

definition windows_options :: "unit glob_options" where
  "windows_options =
     no_options\<lparr>opt_cwd := Some (''C:'' @ [CHR 0x5C] @ ''proj''),
                opt_allowWindowsEscape := Some False\<rparr>"

text \<open>
  The \<open>Glob\<close> that \<open>new Glob(ps)\<close> builds with \<open>sample_Minimatch\<close> and no options in the
  empty store (lemma \<open>sample_glob_constructed\<close>); its set \<open>this.matches\<close> is at reference 0.
\<close>

definition sample_glob :: "string list \<Rightarrow> (string, unit) glob" where
  "sample_glob ps =
     \<lparr>pattern = ps, ignore = None, follow = False, dot = False, mark = False,
      nodir = False, nounique = False, nosort = False, cwd = [], matchSet = ps,
      globSet = ps, globParts = map (\<lambda>p. [p]) ps, realpath = False, nonull = False,
      absolute = False, matchBase = False, windowsPathsNoEscape = False,
      noglobstar = False, cache = EmptyCache, matches = Some 0\<rparr>"

text \<open>The store that this construction leaves.\<close>

definition constructed_world :: "unit world" where
  "constructed_world = snd (new_Set empty_world)"

text \<open>A store with two result sets: \<open>{b}\<close> at reference 0 and \<open>{b, a}\<close> at reference 1.\<close>

definition two_sets_world :: "unit world" where
  "two_sets_world =
     \<lparr>cells = (\<lambda>r. empty_Set)(0 := set_add (Some ''b'') empty_Set,
                                  1 := set_add (Some ''a'') (set_add (Some ''b'') empty_Set)),
      next_ref = 2, ext = ()\<rparr>"

text \<open>A store whose set 0 holds \<open>README.md\<close> and \<open>CHANGELOG.md\<close>, found in that order.\<close>

definition md_world :: "unit world" where
  "md_world =
     \<lparr>cells = (\<lambda>r. empty_Set)
        (0 := set_add (Some ''CHANGELOG.md'') (set_add (Some ''README.md'') empty_Set)),
      next_ref = 1, ext = ()\<rparr>"

text \<open>
  The file system of the examples has \<open>a.txt\<close>, \<open>README.md\<close> and \<open>CHANGELOG.md\<close>;
  \<open>sample_found\<close> is what a compiled pattern finds there, in discovery order.
\<close>

definition sample_found :: "string \<Rightarrow> string list" where
  "sample_found s =
     (if s = ''a.txt'' then [''a.txt'']
      else if s = ''*.md'' then [''README.md'', ''CHANGELOG.md'']
      else [])"

text \<open>
  Modelled from the spec: the traversal engine (\<open>GlobWalker.walkSync\<close> of \<open>walker.ts\<close>,
  which is not part of \<open>glob.ts\<close>). By the spec every matched path of every alternative
  is inserted, during traversal, into one shared, insertion-ordered collection without
  duplicates, which \<open>finish\<close> materialises when \<open>nounique\<close> is unset: the walker adds what
  it finds to \<open>this.matches\<close> and returns that set. With \<open>nounique\<close> the constructor
  leaves \<open>this.matches\<close> undefined and there is one result set per alternative: the
  walker returns a new set of its own.
\<close>

definition sample_walkSync ::
  "(string, unit) GlobWalker \<Rightarrow> unit world \<Rightarrow> unit + (ref \<times> unit world)" where
  "sample_walkSync walker w =
     (case walker of
        GlobWalker (Pattern s parts n) path this hasParent \<Rightarrow>
          (case matches this of
             Some r \<Rightarrow>
               Inr (r, w\<lparr>cells := (cells w)
                          (r := fold set_add (map Some (sample_found s)) (cells w r))\<rparr>)
           | None \<Rightarrow>
               (case new_Set w of
                  (r, w1) \<Rightarrow>
                    Inr (r, w1\<lparr>cells := (cells w1)
                                (r := fold set_add (map Some (sample_found s)) empty_Set)\<rparr>))))"

section \<open>Properties of the constructor\<close>

subsection \<open>What a successful construction leaves\<close>

lemma compile_all_map:
  "compile_all Minimatch mmo ps = Inr mms \<Longrightarrow> map (\<lambda>p. Minimatch p mmo) ps = map Inr mms"
  by (induction ps arbitrary: mms) (auto split: sum.splits)

lemma foldl_push_sets:
  "foldl push_sets (s0, s1, s2) mms =
     (s0 @ concat (map mm_set mms), s1 @ concat (map mm_globSet mms),
      s2 @ concat (map mm_globParts mms))"
  by (induction mms arbitrary: s0 s1 s2) (simp_all add: push_sets_def)

lemma Glob_new_Inr:
  assumes "Glob_new platform Minimatch pattern_in options w = Inr (this, w')"
  shows "cwd this =
           (if platform = ''win32''
            then replace_backslashes (case opt_cwd options of None \<Rightarrow> [] | Some s \<Rightarrow> s)
            else (case opt_cwd options of None \<Rightarrow> [] | Some s \<Rightarrow> s))"
    and "windowsPathsNoEscape this =
           (truthy (opt_windowsPathsNoEscape options) \<or> opt_allowWindowsEscape options = Some False)"
    and "pattern this =
           map ((if truthy (opt_matchBase options) then base_pattern else id) \<circ>
                (if windowsPathsNoEscape this then replace_backslashes else id))
             (case pattern_in of PStr s \<Rightarrow> [s] | PList ps \<Rightarrow> ps)"
    and "\<exists>mms. compile_all Minimatch
                 \<lparr>mmo_options = options, nonegate = True, nocomment = True,
                  preserveMultipleSlashes = True\<rparr> (pattern this) = Inr mms
               \<and> matchSet this = concat (map mm_set mms)
               \<and> globSet this = concat (map mm_globSet mms)
               \<and> globParts this = concat (map mm_globParts mms)"
    and "nounique this = truthy (opt_nounique options)"
    and "nosort this = truthy (opt_nosort options)"
    and "nonull this = truthy (opt_nonull options)"
  using assms
  by (auto simp: Glob_new_def Let_def foldl_push_sets
           split: if_splits sum.splits prod.splits)


lemma compile_all_contract:
  assumes "\<forall>p mmo m. Minimatch p mmo = Inr m \<longrightarrow> P m"
      and "compile_all Minimatch mmo ps = Inr mms"
  shows "\<forall>m \<in> set mms. P m"
  using assms(2)
proof (induction ps arbitrary: mms)
  case Nil
  then show ?case by simp
next
  case (Cons p ps)
  then show ?case using assms(1) by (auto split: sum.splits)
qed

lemma zip_concat_map:
  "\<forall>m \<in> set ms. length (f m) = length (g m) \<Longrightarrow>
     zip (concat (map f ms)) (concat (map g ms)) = concat (map (\<lambda>m. zip (f m) (g m)) ms)"
  by (induction ms) simp_all

lemma length_concat_map_eq:
  "\<forall>m \<in> set ms. length (f m) = length (g m) \<Longrightarrow>
     length (concat (map f ms)) = length (concat (map g ms))"
  by (induction ms) simp_all

lemma no_backslash_replace: "CHR 0x5C \<notin> set (replace_backslashes s)"
  by (auto simp: replace_backslashes_def)

lemma no_backslash_base_pattern:
  "CHR 0x5C \<notin> set p \<Longrightarrow> CHR 0x5C \<notin> set (base_pattern p)"
  by (simp add: base_pattern_def)

text \<open>
  C7. After a successful construction \<open>matchSet\<close>, \<open>globSet\<close> and \<open>globParts\<close> have the same
  length, and entry \<open>i\<close> of each belongs to the same alternative: zipped together they are
  the alternatives of the first pattern in their order, then those of the second pattern,
  and so on, each alternative with its own three views. The compiler is a parameter; what
  is assumed of it is that the three arrays of one \<open>Minimatch\<close> object have one entry per
  alternative, hence the same length.
\<close>

theorem parallel_views_aligned:
  assumes "aligned_Minimatch Minimatch"
      and "Glob_new platform Minimatch pattern_in options w = Inr (this, w')"
  shows "length (matchSet this) = length (globSet this)
       \<and> length (globParts this) = length (globSet this)
       \<and> (\<exists>mms. map (\<lambda>p. Minimatch p \<lparr>mmo_options = options, nonegate = True,
                                        nocomment = True, preserveMultipleSlashes = True\<rparr>)
                    (pattern this) = map Inr mms
              \<and> zip (matchSet this) (zip (globSet this) (globParts this))
                  = concat (map (\<lambda>m. zip (mm_set m) (zip (mm_globSet m) (mm_globParts m)))
                              mms))"
proof -
  let ?mmo = "\<lparr>mmo_options = options, nonegate = True, nocomment = True,
                preserveMultipleSlashes = True\<rparr>"
  from Glob_new_Inr(4) [OF assms(2)] obtain mms where
    c: "compile_all Minimatch ?mmo (pattern this) = Inr mms" and
    s0: "matchSet this = concat (map mm_set mms)" and
    s1: "globSet this = concat (map mm_globSet mms)" and
    s2: "globParts this = concat (map mm_globParts mms)"
    by blast
  from assms(1) have "\<forall>p mmo m. Minimatch p mmo = Inr m \<longrightarrow>
             length (mm_set m) = length (mm_globSet m)
             \<and> length (mm_globParts m) = length (mm_globSet m)"
    unfolding aligned_Minimatch_def .
  from compile_all_contract [OF this c]
  have l0: "\<forall>m \<in> set mms. length (mm_set m) = length (mm_globSet m)"
   and l2: "\<forall>m \<in> set mms. length (mm_globParts m) = length (mm_globSet m)"
    by simp_all
  from l2 have l12: "\<forall>m \<in> set mms. length (mm_globSet m) = length (mm_globParts m)"
    by simp
  have z12: "zip (globSet this) (globParts this)
               = concat (map (\<lambda>m. zip (mm_globSet m) (mm_globParts m)) mms)"
    unfolding s1 s2 by (rule zip_concat_map [OF l12])
  have "\<forall>m \<in> set mms. length (mm_set m) = length (zip (mm_globSet m) (mm_globParts m))"
    using l0 l2 by simp
  then have z: "zip (matchSet this) (zip (globSet this) (globParts this))
               = concat (map (\<lambda>m. zip (mm_set m) (zip (mm_globSet m) (mm_globParts m))) mms)"
    unfolding s0 z12 by (rule zip_concat_map)
  have "length (matchSet this) = length (globSet this)"
    unfolding s0 s1 by (rule length_concat_map_eq [OF l0])
  moreover have "length (globParts this) = length (globSet this)"
    unfolding s1 s2 by (rule length_concat_map_eq [OF l2])
  moreover note compile_all_map [OF c] z
  ultimately show ?thesis by blast
qed

theorem parallel_views_aligned_witness:
  "aligned_Minimatch brace_Minimatch
   \<and> (\<exists>this w'. Glob_new ''linux'' brace_Minimatch (PList [''x'', ''y'']) no_options empty_world
                   = Inr (this, w')
         \<and> matchSet this = [''xa'', ''xb'', ''ya'', ''yb'']
         \<and> globSet this = [''xa'', ''xb'', ''ya'', ''yb'']
         \<and> globParts this = [[''xa''], [''xb''], [''ya''], [''yb'']]
         \<and> length (matchSet this) = length (globSet this)
         \<and> length (globParts this) = length (globSet this))"
proof -
  have h1: "aligned_Minimatch brace_Minimatch"
    by (auto simp: aligned_Minimatch_def brace_Minimatch_def)
  obtain this w' where
    h2: "Glob_new ''linux'' brace_Minimatch (PList [''x'', ''y'']) no_options empty_world
           = Inr (this, w')"
    and v: "matchSet this = [''xa'', ''xb'', ''ya'', ''yb'']"
           "globSet this = [''xa'', ''xb'', ''ya'', ''yb'']"
           "globParts this = [[''xa''], [''xb''], [''ya''], [''yb'']]"
    by (simp add: Glob_new_def Let_def no_options_def truthy_def new_Set_def
          brace_Minimatch_def push_sets_def)
  from parallel_views_aligned [OF h1 h2] h1 h2 v show ?thesis by blast
qed


lemma patterns_normalized:
  assumes "Glob_new platform Minimatch pattern_in options w = Inr (this, w')"
      and "opt_windowsPathsNoEscape options = Some True
           \<or> opt_allowWindowsEscape options = Some False"
  shows "windowsPathsNoEscape this"
    and "pattern this =
           map ((if truthy (opt_matchBase options) then base_pattern else id) \<circ>
                replace_backslashes)
             (case pattern_in of PStr s \<Rightarrow> [s] | PList ps \<Rightarrow> ps)"
    and "\<forall>p \<in> set (pattern this). CHR 0x5C \<notin> set p"
proof -
  from assms(2) Glob_new_Inr(2) [OF assms(1)] show a: "windowsPathsNoEscape this"
    by (auto simp: truthy_def)
  from a Glob_new_Inr(3) [OF assms(1)] show b: "pattern this =
           map ((if truthy (opt_matchBase options) then base_pattern else id) \<circ>
                replace_backslashes)
             (case pattern_in of PStr s \<Rightarrow> [s] | PList ps \<Rightarrow> ps)"
    by simp
  show "\<forall>p \<in> set (pattern this). CHR 0x5C \<notin> set p"
    unfolding b by (auto simp: no_backslash_replace no_backslash_base_pattern)
qed

text \<open>
  C8. On the platform \<open>win32\<close> a successful construction leaves \<open>cwd\<close> with every
  backslash replaced by a slash, and, when \<open>windowsPathsNoEscape\<close> is set or
  \<open>allowWindowsEscape\<close> is \<open>false\<close>, every input pattern with every backslash replaced by
  a slash (before the rewriting of \<open>matchBase\<close>), so that no pattern contains a backslash.
  By \<open>patterns_normalized\<close> the patterns are rewritten so on every platform.
\<close>

theorem separators_normalized_on_win32:
  assumes "platform = ''win32''"
      and "Glob_new platform Minimatch pattern_in options w = Inr (this, w')"
  shows "cwd this = replace_backslashes (case opt_cwd options of None \<Rightarrow> [] | Some s \<Rightarrow> s)
       \<and> CHR 0x5C \<notin> set (cwd this)
       \<and> (opt_windowsPathsNoEscape options = Some True
            \<or> opt_allowWindowsEscape options = Some False \<longrightarrow>
            windowsPathsNoEscape this
            \<and> pattern this =
                map ((if truthy (opt_matchBase options) then base_pattern else id) \<circ>
                     replace_backslashes)
                  (case pattern_in of PStr s \<Rightarrow> [s] | PList ps \<Rightarrow> ps)
            \<and> (\<forall>p \<in> set (pattern this). CHR 0x5C \<notin> set p))"
proof -
  from assms Glob_new_Inr(1) [OF assms(2)]
  have c: "cwd this = replace_backslashes (case opt_cwd options of None \<Rightarrow> [] | Some s \<Rightarrow> s)"
    by simp
  then have "CHR 0x5C \<notin> set (cwd this)"
    by (simp add: no_backslash_replace)
  with c patterns_normalized [OF assms(2)] show ?thesis by blast
qed

theorem separators_normalized_on_win32_witness:
  "''win32'' = ''win32''
   \<and> (\<exists>this w'. Glob_new ''win32'' sample_Minimatch (PStr (''src'' @ [CHR 0x5C] @ ''*.ts''))
                   windows_options empty_world = Inr (this, w')
         \<and> (opt_windowsPathsNoEscape windows_options = Some True
              \<or> opt_allowWindowsEscape windows_options = Some False)
         \<and> cwd this = ''C:/proj''
         \<and> windowsPathsNoEscape this
         \<and> pattern this = [''src/*.ts''])"
proof -
  obtain this w' where
    h: "Glob_new ''win32'' sample_Minimatch (PStr (''src'' @ [CHR 0x5C] @ ''*.ts''))
          windows_options empty_world = Inr (this, w')"
    by (simp add: Glob_new_def Let_def windows_options_def no_options_def truthy_def
          new_Set_def sample_Minimatch_def push_sets_def)
  have o: "opt_windowsPathsNoEscape windows_options = Some True
           \<or> opt_allowWindowsEscape windows_options = Some False"
    by (simp add: windows_options_def)
  from separators_normalized_on_win32 [OF refl h] o
  have "cwd this = ''C:/proj''" and "windowsPathsNoEscape this"
    and "pattern this = [''src/*.ts'']"
    by (simp_all add: windows_options_def no_options_def replace_backslashes_def truthy_def)
  with h o show ?thesis by blast
qed

text \<open>
  C4. When \<open>matchBase\<close> and \<open>noglobstar\<close> are both set, the constructor throws
  \<open>TypeError('base matching requires globstar')\<close>, whatever the pattern argument, the
  platform, the other options, the compiler and the store are. The result does not depend
  on the compiler, which is not reached, and the constructor has no walker to call: nothing
  is matched and the file system is not read.
\<close>

theorem matchBase_noglobstar_throws:
  assumes "opt_matchBase options = Some True"
      and "opt_noglobstar options = Some True"
  shows "Glob_new platform Minimatch pattern_in options w
           = Inl (TypeError ''base matching requires globstar'')"
  using assms by (simp add: Glob_new_def truthy_def Let_def split: prod.splits)

theorem matchBase_noglobstar_throws_witness:
  "opt_matchBase (no_options\<lparr>opt_matchBase := Some True, opt_noglobstar := Some True\<rparr>)
     = Some True
   \<and> opt_noglobstar (no_options\<lparr>opt_matchBase := Some True, opt_noglobstar := Some True\<rparr>)
     = Some True
   \<and> Glob_new ''linux'' sample_Minimatch (PStr ''FOO'')
        (no_options\<lparr>opt_matchBase := Some True, opt_noglobstar := Some True\<rparr>) empty_world
     = Inl (TypeError ''base matching requires globstar'')"
  using matchBase_noglobstar_throws
          [of "no_options\<lparr>opt_matchBase := Some True, opt_noglobstar := Some True\<rparr>"
              "''linux''" sample_Minimatch "PStr ''FOO''" empty_world]
  by simp

section \<open>Properties of the reduction\<close>


subsection \<open>Sets\<close>

lemma elems_empty_Set [simp]: "elems empty_Set = []"
  by (rule empty_Set.rep_eq)

lemma elems_set_add:
  "elems (set_add x s) = (if x \<in> set (elems s) then elems s else elems s @ [x])"
  by (rule set_add.rep_eq)

lemma distinct_elems [simp]: "distinct (elems s)"
  using elems [of s] by simp

lemma set_elems_fold_set_add:
  "set (elems (fold set_add ns s)) = set (elems s) \<union> set ns"
  by (induction ns arbitrary: s) (auto simp: elems_set_add)

subsection \<open>Sorting\<close>

lemma fold_append_concat:
  "fold (\<lambda>r acc. acc @ f r) ms raw0 = raw0 @ concat (map f ms)"
  by (induction ms arbitrary: raw0) simp_all

lemma mset_insert_sorted: "mset (insert_sorted c x ys) = add_mset x (mset ys)"
  by (induction ys) simp_all

lemma mset_sort_js: "mset (sort_js c xs) = mset xs"
  unfolding sort_js_def by (induction xs) (simp_all add: mset_insert_sorted)

lemma set_sort_js: "set (sort_js c xs) = set xs"
  using mset_sort_js [of c xs] by (metis set_mset_mset)

lemma distinct_sort_js: "distinct (sort_js c xs) = distinct xs"
  using mset_sort_js [of c xs] by (metis mset_eq_imp_distinct_iff)

subsection \<open>\<open>finish\<close>\<close>

lemma finish_Cons:
  "finish localeCompare this (r0 # rs) w =
     Inr (if nosort this
          then (if nounique this
                then elems (cells w r0) @ concat (map (\<lambda>r. elems (cells w r)) (r0 # rs))
                else elems (cells w r0))
          else sort_js localeCompare
                 (if nounique this
                  then elems (cells w r0) @ concat (map (\<lambda>r. elems (cells w r)) (r0 # rs))
                  else elems (cells w r0)))"
  by (simp add: finish_def Let_def fold_append_concat)

lemma finish_distinct:
  assumes "\<not> nounique this" and "finish localeCompare this ms w = Inr out"
  shows "distinct out"
proof (cases ms)
  case Nil
  with assms(2) show ?thesis by (simp add: finish_def)
next
  case (Cons r0 rs)
  with assms show ?thesis
    by (auto simp: finish_Cons distinct_sort_js split: if_splits)
qed

text \<open>
  C1. \<open>finish\<close> builds a sequence that starts from the members of result set 0, in their
  order; with \<open>nounique\<close> the members of every result set, set 0 again included, are
  appended to it in the order of the alternatives. With \<open>nosort\<close> that sequence is the
  output; otherwise the output is that sequence sorted, with the same members as often.
  Without \<open>nounique\<close> no member occurs twice in the output: duplicates need \<open>nounique\<close>.
\<close>

theorem finish_output:
  "let set0 = elems (cells w r0);
       raw = (if nounique this
              then set0 @ concat (map (\<lambda>r. elems (cells w r)) (r0 # rs))
              else set0)
   in \<exists>out. (finish localeCompare this (r0 # rs) w :: 'e glob_error + member list) = Inr out
        \<and> (nosort this \<longrightarrow> out = raw)
        \<and> (\<not> nosort this \<longrightarrow> out = sort_js localeCompare raw)
        \<and> mset out = mset raw
        \<and> (\<not> nounique this \<longrightarrow> distinct out)"
  by (simp add: finish_Cons Let_def mset_sort_js distinct_sort_js)

theorem finish_output_witness:
  "(finish code_compare ((sample_glob [''x'', ''y''])\<lparr>nounique := True, nosort := True\<rparr>)
      [0, 1] two_sets_world :: unit glob_error + member list)
     = Inr [Some ''b'', Some ''b'', Some ''b'', Some ''a'']
   \<and> (finish code_compare ((sample_glob [''x'', ''y''])\<lparr>nounique := True\<rparr>)
      [0, 1] two_sets_world :: unit glob_error + member list)
     = Inr [Some ''a'', Some ''b'', Some ''b'', Some ''b'']
   \<and> (finish code_compare (sample_glob [''x'', ''y''])
      [0, 1] two_sets_world :: unit glob_error + member list)
     = Inr [Some ''b'']"
  using finish_output [of two_sets_world 0 "(sample_glob [''x'', ''y''])\<lparr>nounique := True, nosort := True\<rparr>"
          "[1]" code_compare, where ?'e = unit]
        finish_output [of two_sets_world 0 "(sample_glob [''x'', ''y''])\<lparr>nounique := True\<rparr>"
          "[1]" code_compare, where ?'e = unit]
        finish_output [of two_sets_world 0 "sample_glob [''x'', ''y'']"
          "[1]" code_compare, where ?'e = unit]
  by (simp add: Let_def sample_glob_def two_sets_world_def elems_set_add sort_js_def
        SortCompare_def code_compare_def)


text \<open>
  The output itself need not begin with the members of result set 0, nor list the sets in
  the order of the alternatives: the default is to sort. With \<open>nounique\<close>, without
  \<open>nosort\<close>, and the result sets \<open>{b}\<close> and \<open>{b, a}\<close>, the output is \<open>a, b, b, b\<close>, and
  \<open>a\<close> is no member of result set 0.
\<close>

theorem finish_output_counterexample:
  "(finish code_compare ((sample_glob [''x'', ''y''])\<lparr>nounique := True\<rparr>)
      [0, 1] two_sets_world :: unit glob_error + member list)
     = Inr [Some ''a'', Some ''b'', Some ''b'', Some ''b'']
   \<and> elems (cells two_sets_world 0) = [Some ''b'']
   \<and> elems (cells two_sets_world 0) @ elems (cells two_sets_world 0)
        @ elems (cells two_sets_world 1) = [Some ''b'', Some ''b'', Some ''b'', Some ''a'']
   \<and> (finish code_compare ((sample_glob [''x'', ''y''])\<lparr>nounique := True\<rparr>)
      [0, 1] two_sets_world :: unit glob_error + member list)
     \<noteq> Inr (elems (cells two_sets_world 0) @ elems (cells two_sets_world 0)
              @ elems (cells two_sets_world 1))
   \<and> Some ''a'' \<notin> set (elems (cells two_sets_world 0))"
  by (simp add: finish_Cons sample_glob_def two_sets_world_def elems_set_add sort_js_def
        SortCompare_def code_compare_def)

subsection \<open>Sorted output\<close>

lemma consistent_total: "consistent_comparator c \<Longrightarrow> c a b \<le> 0 \<or> c b a \<le> 0"
  unfolding consistent_comparator_def by blast

lemma consistent_trans:
  "consistent_comparator c \<Longrightarrow> c a b \<le> 0 \<Longrightarrow> c b d \<le> 0 \<Longrightarrow> c a d \<le> 0"
  unfolding consistent_comparator_def by blast

lemma SortCompare_total:
  assumes "consistent_comparator c"
  shows "SortCompare c x y \<le> 0 \<or> SortCompare c y x \<le> 0"
proof (cases x)
  case None
  then show ?thesis by (cases y) (simp_all add: SortCompare_def)
next
  case (Some a)
  show ?thesis
  proof (cases y)
    case None
    with Some show ?thesis by (simp add: SortCompare_def)
  next
    case (Some b)
    with \<open>x = Some a\<close> consistent_total [OF assms, of a b] show ?thesis
      by (simp add: SortCompare_def)
  qed
qed

lemma SortCompare_trans:
  assumes "consistent_comparator c"
      and "SortCompare c x y \<le> 0" and "SortCompare c y z \<le> 0"
  shows "SortCompare c x z \<le> 0"
proof (cases x)
  case None
  with assms(2) have "y = None" by (cases y) (simp_all add: SortCompare_def)
  with assms(3) have "z = None" by (cases z) (simp_all add: SortCompare_def)
  with None show ?thesis by (simp add: SortCompare_def)
next
  case xa: (Some a)
  show ?thesis
  proof (cases z)
    case None
    with xa show ?thesis by (simp add: SortCompare_def)
  next
    case zd: (Some d)
    from assms(3) zd obtain b where yb: "y = Some b"
      by (cases y) (simp_all add: SortCompare_def)
    from assms(2) xa yb have "c a b \<le> 0" by (simp add: SortCompare_def)
    moreover from assms(3) yb zd have "c b d \<le> 0" by (simp add: SortCompare_def)
    ultimately have "c a d \<le> 0" by (rule consistent_trans [OF assms(1)])
    with xa zd show ?thesis by (simp add: SortCompare_def)
  qed
qed

lemma set_insert_sorted: "set (insert_sorted c x ys) = insert x (set ys)"
  by (induction ys) auto

lemma sorted_insert_sorted:
  assumes tot: "\<And>a b. c a b \<le> 0 \<or> c b a \<le> 0"
      and tr: "\<And>a b d. c a b \<le> 0 \<Longrightarrow> c b d \<le> 0 \<Longrightarrow> c a d \<le> 0"
      and "sorted_wrt (\<lambda>a b. c a b \<le> 0) ys"
  shows "sorted_wrt (\<lambda>a b. c a b \<le> 0) (insert_sorted c x ys)"
  using assms(3)
proof (induction ys)
  case Nil
  then show ?case by simp
next
  case (Cons y ys)
  show ?case
  proof (cases "c x y \<le> 0")
    case True
    from Cons.prems have "\<forall>z \<in> set ys. c y z \<le> 0" by simp
    with True tr have "\<forall>z \<in> set ys. c x z \<le> 0" by blast
    with True Cons.prems show ?thesis by simp
  next
    case False
    with tot have "c y x \<le> 0" by blast
    with False Cons show ?thesis by (simp add: set_insert_sorted)
  qed
qed

lemma sorted_sort_js:
  assumes "consistent_comparator c"
  shows "sorted_wrt (\<lambda>a b. SortCompare c a b \<le> 0) (sort_js c xs)"
  unfolding sort_js_def
proof (induction xs)
  case Nil
  then show ?case by simp
next
  case (Cons x xs)
  have "sorted_wrt (\<lambda>a b. SortCompare c a b \<le> 0)
          (insert_sorted (SortCompare c) x (foldr (insert_sorted (SortCompare c)) xs []))"
  proof (rule sorted_insert_sorted)
    show "SortCompare c a b \<le> 0 \<or> SortCompare c b a \<le> 0" for a b
      by (rule SortCompare_total [OF assms])
    show "SortCompare c a b \<le> 0 \<Longrightarrow> SortCompare c b d \<le> 0 \<Longrightarrow> SortCompare c a d \<le> 0"
      for a b d
      by (rule SortCompare_trans [OF assms])
    show "sorted_wrt (\<lambda>a b. SortCompare c a b \<le> 0)
            (foldr (insert_sorted (SortCompare c)) xs [])"
      by (rule Cons.IH)
  qed
  then show ?case by simp
qed

lemma consistent_code_compare: "consistent_comparator code_compare"
  unfolding consistent_comparator_def code_compare_def
  by (auto split: if_splits)

text \<open>
  C5. Unless \<open>nosort\<close> is set, the output of \<open>finish\<close> is sorted by the comparison that
  \<open>sort\<close> uses (\<open>localeCompare(b, 'en')\<close> on strings, \<open>undefined\<close> last), and on the members
  of the output that comparison is transitive and total. \<open>localeCompare\<close> belongs to the
  runtime and is a parameter: that it is a consistent comparator, as ECMAScript requires
  of it, is the assumption under which sorting is defined at all.
\<close>

theorem sorted_unless_nosort:
  assumes "consistent_comparator localeCompare"
      and "\<not> nosort this"
      and "finish localeCompare this ms w = Inr out"
  shows "sorted_wrt (\<lambda>a b. SortCompare localeCompare a b \<le> 0) out
       \<and> (\<forall>a \<in> set out. \<forall>b \<in> set out. \<forall>c \<in> set out.
             SortCompare localeCompare a b \<le> 0 \<and> SortCompare localeCompare b c \<le> 0
               \<longrightarrow> SortCompare localeCompare a c \<le> 0)
       \<and> (\<forall>a \<in> set out. \<forall>b \<in> set out.
             SortCompare localeCompare a b \<le> 0 \<or> SortCompare localeCompare b a \<le> 0)"
proof -
  from assms(3) obtain r0 rs where ms: "ms = r0 # rs"
    by (cases ms) (simp_all add: finish_def)
  from assms(2,3) have "\<exists>raw. out = sort_js localeCompare raw"
    unfolding ms finish_Cons by auto
  then have "sorted_wrt (\<lambda>a b. SortCompare localeCompare a b \<le> 0) out"
    using sorted_sort_js [OF assms(1)] by blast
  moreover have "SortCompare localeCompare a b \<le> 0 \<and> SortCompare localeCompare b c \<le> 0
               \<longrightarrow> SortCompare localeCompare a c \<le> 0" for a b c
    using SortCompare_trans [OF assms(1)] by blast
  moreover have "SortCompare localeCompare a b \<le> 0 \<or> SortCompare localeCompare b a \<le> 0"
    for a b
    by (rule SortCompare_total [OF assms(1)])
  ultimately show ?thesis by blast
qed

theorem sorted_unless_nosort_witness:
  "consistent_comparator code_compare
   \<and> \<not> nosort (sample_glob [''*.md''])
   \<and> (finish code_compare (sample_glob [''*.md'']) [0] md_world
        :: unit glob_error + member list)
       = Inr [Some ''CHANGELOG.md'', Some ''README.md'']
   \<and> sorted_wrt (\<lambda>a b. SortCompare code_compare a b \<le> 0)
        [Some ''CHANGELOG.md'', Some ''README.md'']"
proof -
  have f: "(finish code_compare (sample_glob [''*.md'']) [0] md_world
        :: unit glob_error + member list)
       = Inr [Some ''CHANGELOG.md'', Some ''README.md'']"
    by (simp add: finish_Cons sample_glob_def md_world_def elems_set_add sort_js_def
          SortCompare_def code_compare_def)
  have n: "\<not> nosort (sample_glob [''*.md''])"
    by (simp add: sample_glob_def)
  from sorted_unless_nosort [OF consistent_code_compare n f] consistent_code_compare n f
  show ?thesis by blast
qed


subsection \<open>Walking and \<open>doNonull\<close>\<close>

lemma walkAllSync_length:
  "walkAllSync walkSync this i ss w = Inr (ms, w1) \<Longrightarrow> length ms = length ss"
  by (induction ss arbitrary: i w ms) (auto split: sum.splits prod.splits)

lemma walkAllSync_not_NotIterable:
  "walkAllSync walkSync this i ss w \<noteq> Inl NotIterable"
  by (induction ss arbitrary: i w) (auto split: sum.splits prod.splits)

lemma collect_nulls_mem:
  assumes "nonull this" and "i < length ms" and "set_size (cells w (ms ! i)) = 0"
  shows "nth_js (globSet this) (k + i) \<in> set (collect_nulls this w k ms)"
  using assms(2,3)
proof (induction ms arbitrary: i k)
  case Nil
  then show ?case by simp
next
  case (Cons r rs)
  show ?case
  proof (cases i)
    case 0
    with Cons.prems assms(1) show ?thesis by simp
  next
    case (Suc j)
    with Cons.prems have "j < length rs" and "set_size (cells w (rs ! j)) = 0"
      by simp_all
    from Cons.IH [OF this, of "Suc k"] Suc show ?thesis by simp
  qed
qed

lemma cells_doNonull_0:
  "cells (doNonull this (r0 # rs) w) r0
     = fold set_add (collect_nulls this w 0 (r0 # rs)) (cells w r0)"
  by (simp add: doNonull_def Let_def)

lemma finish_doNonull_Nil:
  "finish_doNonull localeCompare this [] w = Inl NotIterable"
  by (simp add: finish_doNonull_def Let_def finish_def)

lemma finish_doNonull_Inr:
  fixes out :: "member list"
  assumes "(finish_doNonull localeCompare this ms w :: 'e glob_error + _) = Inr (out, w')"
  shows "w' = doNonull this ms w"
    and "(finish localeCompare this ms w' :: 'e glob_error + _) = Inr out"
  using assms by (auto simp: finish_doNonull_def Let_def split: sum.splits)

lemma finish_doNonull_Cons_not_Inl:
  "finish_doNonull localeCompare this (r0 # rs) w \<noteq> Inl e"
  by (simp add: finish_doNonull_def Let_def finish_Cons)

lemma set0_subset_finish:
  assumes "finish localeCompare this (r0 # rs) w = Inr out"
  shows "set (elems (cells w r0)) \<subseteq> set out"
  using assms by (auto simp: finish_Cons set_sort_js split: if_splits)

text \<open>
  What \<open>doNonull\<close> does achieve, whatever the walkers are. With \<open>nonull\<close> set, take the
  array \<open>ms\<close> of result sets and the store \<open>w1\<close> as they are when every alternative has
  been walked. If the set \<open>matches[i]\<close> is empty then, then \<open>doNonull\<close> adds the glob string
  \<open>globSet[i]\<close> to result set 0, and the output of \<open>process\<close> and of \<open>processSync\<close>
  contains it. This is about the set at \<open>matches[i]\<close>, which need not be what alternative
  \<open>i\<close> alone matched.
\<close>

theorem nonull_fallback:
  fixes walkSync :: "('m, 'c) GlobWalker \<Rightarrow> 'w world \<Rightarrow> 'e + (ref \<times> 'w world)"
  assumes "nonull this"
      and "i < length ms"
      and "set_size (cells w1 (ms ! i)) = 0"
      and "i < length (globSet this)"
  shows "\<exists>out w2. w2 = doNonull this ms w1
           \<and> Some (globSet this ! i) \<in> set (elems (cells w2 (ms ! 0)))
           \<and> Some (globSet this ! i) \<in> set out
           \<and> process localeCompare this (Inr (ms, w1) :: 'e + _) = Inr (out, w2)
           \<and> (walkAllSync walkSync this 0 (matchSet this) w = Inr (ms, w1) \<longrightarrow>
                processSync localeCompare walkSync this w = Inr (out, w2))"
proof -
  let ?w2 = "doNonull this ms w1"
  from assms(2) obtain r0 rs where ms: "ms = r0 # rs" by (cases ms) simp_all
  obtain out where
    f: "(finish localeCompare this ms ?w2 :: 'e glob_error + _) = Inr out"
    unfolding ms by (simp add: finish_Cons)
  then have fd: "(finish_doNonull localeCompare this ms w1 :: 'e glob_error + _)
                   = Inr (out, ?w2)"
    by (simp add: finish_doNonull_def Let_def)
  from collect_nulls_mem [OF assms(1-3), of 0] assms(4)
  have "Some (globSet this ! i) \<in> set (collect_nulls this w1 0 ms)"
    by (simp add: nth_js_def)
  then have m0: "Some (globSet this ! i) \<in> set (elems (cells ?w2 (ms ! 0)))"
    unfolding ms by (simp add: cells_doNonull_0 set_elems_fold_set_add)
  with set0_subset_finish [OF f [unfolded ms]]
  have mo: "Some (globSet this ! i) \<in> set out"
    unfolding ms by auto
  have p: "process localeCompare this (Inr (ms, w1) :: 'e + _) = Inr (out, ?w2)"
    using fd by (simp add: process_def)
  have s: "walkAllSync walkSync this 0 (matchSet this) w = Inr (ms, w1) \<longrightarrow>
           processSync localeCompare walkSync this w = Inr (out, ?w2)"
    using fd by (simp add: processSync_def)
  from m0 mo p s show ?thesis by blast
qed

text \<open>
  C2. With \<open>nounique\<close> unset, every member of the output of \<open>processSync\<close> and of
  \<open>process\<close> occurs in it exactly once, whatever the walkers found and however many
  alternatives or patterns (the same pattern twice, in the example) led to it.
\<close>

theorem unique_output:
  fixes walkSync :: "('m, 'c) GlobWalker \<Rightarrow> 'w world \<Rightarrow> 'e + (ref \<times> 'w world)"
    and awaited :: "'e + (ref list \<times> 'w world)"
  assumes "\<not> nounique this"
      and "processSync localeCompare walkSync this w = Inr (out, w')
           \<or> process localeCompare this awaited = Inr (out, w')"
  shows "distinct out \<and> (\<forall>p \<in> set out. count_list out p = 1)"
proof -
  from assms(2) obtain ms w1 where
    "(finish_doNonull localeCompare this ms w1 :: 'e glob_error + _) = Inr (out, w')"
    by (auto simp: processSync_def process_def split: sum.splits prod.splits)
  from finish_distinct [OF assms(1) finish_doNonull_Inr(2) [OF this]]
  have d: "distinct out" .
  then have "\<forall>p \<in> set out. count_list out p = 1"
    by (simp add: distinct_count_atmost_1 flip: count_mset)
  with d show ?thesis by blast
qed

text \<open>
  C10. With no compiled alternative (\<open>matchSet\<close> empty, as for the empty pattern list),
  \<open>processSync\<close> and \<open>process\<close> throw: \<open>finish\<close> spreads \<open>matches[0]\<close>, which is
  \<open>undefined\<close>. With at least one alternative neither throws that error: \<open>processSync\<close>
  whatever the walkers do, \<open>process\<close> for every array with one set per alternative and
  for every rejection of a walker.
\<close>

theorem no_alternative_throws:
  fixes walkSync :: "('m, 'c) GlobWalker \<Rightarrow> 'w world \<Rightarrow> 'e + (ref \<times> 'w world)"
  shows
  "(matchSet this = [] \<longrightarrow>
      processSync localeCompare walkSync this w = Inl NotIterable
      \<and> process localeCompare this (Inr ([], w) :: 'e + _) = Inl NotIterable)
   \<and> (Glob_new platform Minimatch (PList []) options w0 = Inr (this, w0') \<longrightarrow>
        matchSet this = [])
   \<and> (matchSet this \<noteq> [] \<longrightarrow>
        processSync localeCompare walkSync this w \<noteq> Inl NotIterable
        \<and> (\<forall>ms w1. length ms = length (matchSet this) \<longrightarrow>
              process localeCompare this (Inr (ms, w1) :: 'e + _) \<noteq> Inl NotIterable)
        \<and> (\<forall>e :: 'e. process localeCompare this (Inl e :: 'e + (ref list \<times> 'w world))
                 \<noteq> Inl NotIterable))"
proof -
  have a: "processSync localeCompare walkSync this w = Inl NotIterable
           \<and> process localeCompare this (Inr ([], w) :: 'e + _) = Inl NotIterable"
    if "matchSet this = []"
    using that by (simp add: processSync_def process_def finish_doNonull_Nil)
  have b: "matchSet this = []"
    if h: "Glob_new platform Minimatch (PList []) options w0 = Inr (this, w0')"
  proof -
    from Glob_new_Inr(3) [OF h] have "pattern this = []" by simp
    with Glob_new_Inr(4) [OF h] show ?thesis by auto
  qed
  have c1: "process localeCompare this (Inr (ms, w1) :: 'e + _) \<noteq> Inl NotIterable"
    if "matchSet this \<noteq> []" and "length ms = length (matchSet this)" for ms w1
  proof -
    from that obtain r0 rs where ms: "ms = r0 # rs" by (cases ms) simp_all
    show ?thesis
      unfolding ms by (simp add: process_def finish_doNonull_Cons_not_Inl)
  qed
  have c2: "processSync localeCompare walkSync this w \<noteq> Inl NotIterable"
    if ne: "matchSet this \<noteq> []"
  proof (cases "walkAllSync walkSync this 0 (matchSet this) w")
    case (Inl e)
    with walkAllSync_not_NotIterable [of walkSync this 0 "matchSet this" w]
    show ?thesis by (simp add: processSync_def)
  next
    case (Inr res)
    obtain ms w1 where res: "res = (ms, w1)" by (cases res)
    from walkAllSync_length [OF Inr [unfolded res]] ne
    obtain r0 rs where ms: "ms = r0 # rs" by (cases ms) simp_all
    from Inr show ?thesis
      unfolding res ms by (simp add: processSync_def finish_doNonull_Cons_not_Inl)
  qed
  have c3: "process localeCompare this (Inl e :: 'e + (ref list \<times> 'w world))
              \<noteq> Inl NotIterable" for e
    by (simp add: process_def)
  from a b c1 c2 c3 show ?thesis by blast
qed


text \<open>
  The two match operations share everything after the walk: \<open>processSync\<close> is \<open>process\<close>
  applied to what the sequential walk yields. What the concurrent walk of \<open>process\<close>
  yields is outside this development.
\<close>

lemma processSync_as_process:
  "processSync localeCompare walkSync this w =
     (case walkAllSync walkSync this 0 (matchSet this) w of
        Inl e \<Rightarrow> Inl e
      | Inr res \<Rightarrow> process localeCompare this (Inr res))"
  by (simp add: processSync_def process_def split: sum.splits prod.splits)

subsection \<open>The sample inputs\<close>

lemma compile_all_sample:
  "compile_all sample_Minimatch mmo ps
     = Inr (map (\<lambda>p. \<lparr>mm_set = [p], mm_globSet = [p], mm_globParts = [[p]]\<rparr>) ps)"
  by (induction ps) (simp_all add: sample_Minimatch_def)

lemma sample_glob_constructed:
  "Glob_new ''linux'' sample_Minimatch (PList ps) no_options empty_world
     = Inr (sample_glob ps, constructed_world)"
proof -
  have "concat (map (\<lambda>p. [[p]]) ps) = map (\<lambda>p. [p]) ps"
    by (induction ps) simp_all
  moreover have "concat (map (\<lambda>p. [p]) ps) = ps"
    by (induction ps) simp_all
  ultimately show ?thesis
    by (simp add: Glob_new_def Let_def no_options_def truthy_def compile_all_sample
          foldl_push_sets comp_def sample_glob_def constructed_world_def new_Set_def
          empty_world_def)
qed

theorem unique_output_witness:
  "\<not> nounique (sample_glob [''a.txt'', ''a.txt''])
   \<and> (\<exists>w'. processSync code_compare sample_walkSync (sample_glob [''a.txt'', ''a.txt''])
              constructed_world = Inr ([Some ''a.txt''], w'))
   \<and> distinct [Some ''a.txt'']
   \<and> count_list [Some ''a.txt''] (Some ''a.txt'') = 1"
proof -
  have n: "\<not> nounique (sample_glob [''a.txt'', ''a.txt''])"
    by (simp add: sample_glob_def)
  obtain w' where
    h: "processSync code_compare sample_walkSync (sample_glob [''a.txt'', ''a.txt''])
          constructed_world = Inr ([Some ''a.txt''], w')"
    by (simp add: processSync_def getWalker_def sample_walkSync_def sample_glob_def
          sample_found_def nth_js_def finish_doNonull_def doNonull_def finish_def
          Let_def set_size_def elems_set_add sort_js_def constructed_world_def
          new_Set_def empty_world_def)
  then have "processSync code_compare sample_walkSync (sample_glob [''a.txt'', ''a.txt''])
          constructed_world = Inr ([Some ''a.txt''], w')
       \<or> process code_compare (sample_glob [''a.txt'', ''a.txt'']) (Inl ())
          = Inr ([Some ''a.txt''], w')"
    by simp
  from unique_output [OF n this] n h show ?thesis by auto
qed

theorem nonull_fallback_witness:
  "nonull ((sample_glob [''missing/*.xyz''])\<lparr>nonull := True\<rparr>)
   \<and> (0 :: nat) < length [0 :: nat]
   \<and> walkAllSync sample_walkSync ((sample_glob [''missing/*.xyz''])\<lparr>nonull := True\<rparr>) 0
        (matchSet ((sample_glob [''missing/*.xyz''])\<lparr>nonull := True\<rparr>)) constructed_world
       = Inr ([0], constructed_world)
   \<and> set_size (cells constructed_world ([0] ! 0)) = 0
   \<and> 0 < length (globSet ((sample_glob [''missing/*.xyz''])\<lparr>nonull := True\<rparr>))
   \<and> (\<exists>out w2. processSync code_compare sample_walkSync
                  ((sample_glob [''missing/*.xyz''])\<lparr>nonull := True\<rparr>) constructed_world
                  = Inr (out, w2)
          \<and> Some ''missing/*.xyz'' \<in> set out)"
proof -
  let ?g = "(sample_glob [''missing/*.xyz''])\<lparr>nonull := True\<rparr>"
  have a: "nonull ?g" and d: "0 < length (globSet ?g)"
    by (simp_all add: sample_glob_def)
  have b: "(0 :: nat) < length [0 :: nat]" by simp
  have c: "set_size (cells constructed_world ([0] ! 0)) = 0"
    by (simp add: constructed_world_def new_Set_def empty_world_def set_size_def)
  have e: "walkAllSync sample_walkSync ?g 0 (matchSet ?g) constructed_world
             = Inr ([0], constructed_world)"
    by (simp add: getWalker_def sample_walkSync_def sample_glob_def sample_found_def
          nth_js_def constructed_world_def new_Set_def empty_world_def)
  from nonull_fallback [OF a b c d, of code_compare sample_walkSync constructed_world] e
  have "\<exists>out w2. processSync code_compare sample_walkSync ?g constructed_world
                  = Inr (out, w2)
          \<and> Some ''missing/*.xyz'' \<in> set out"
    by (auto simp: sample_glob_def)
  with a b c d e show ?thesis by blast
qed

theorem no_alternative_throws_witness:
  "matchSet (sample_glob []) = []
   \<and> Glob_new ''linux'' sample_Minimatch (PList []) no_options empty_world
       = Inr (sample_glob [], constructed_world)
   \<and> processSync code_compare sample_walkSync (sample_glob []) constructed_world
       = Inl NotIterable
   \<and> process code_compare (sample_glob []) (Inr ([], constructed_world) :: unit + _)
       = Inl NotIterable
   \<and> matchSet (sample_glob [''a.txt'']) \<noteq> []
   \<and> processSync code_compare sample_walkSync (sample_glob [''a.txt'']) constructed_world
       \<noteq> Inl NotIterable"
proof -
  have m0: "matchSet (sample_glob []) = []"
    by (simp add: sample_glob_def)
  have m1: "matchSet (sample_glob [''a.txt'']) \<noteq> []"
    by (simp add: sample_glob_def)
  note g = sample_glob_constructed [of "[]"]
  from no_alternative_throws
         [of "sample_glob []" code_compare sample_walkSync constructed_world
             "''linux''" sample_Minimatch no_options empty_world constructed_world] m0
  have t0: "processSync code_compare sample_walkSync (sample_glob []) constructed_world
              = Inl NotIterable
          \<and> process code_compare (sample_glob []) (Inr ([], constructed_world) :: unit + _)
              = Inl NotIterable"
    by blast
  from no_alternative_throws
         [of "sample_glob [''a.txt'']" code_compare sample_walkSync constructed_world
             "''linux''" sample_Minimatch no_options empty_world constructed_world] m1
  have t1: "processSync code_compare sample_walkSync (sample_glob [''a.txt''])
              constructed_world \<noteq> Inl NotIterable"
    by blast
  from m0 m1 g t0 t1 show ?thesis by blast
qed

subsection \<open>The null-glob fallback over a shared result set\<close>

lemma sample_glob_constructed_nonull:
  "Glob_new ''linux'' sample_Minimatch (PList ps) (no_options\<lparr>opt_nonull := Some True\<rparr>)
     empty_world
     = Inr ((sample_glob ps)\<lparr>nonull := True\<rparr>, constructed_world)"
proof -
  have "concat (map (\<lambda>p. [[p]]) ps) = map (\<lambda>p. [p]) ps"
    by (induction ps) simp_all
  moreover have "concat (map (\<lambda>p. [p]) ps) = ps"
    by (induction ps) simp_all
  ultimately show ?thesis
    by (simp add: Glob_new_def Let_def no_options_def truthy_def compile_all_sample
          foldl_push_sets comp_def sample_glob_def constructed_world_def new_Set_def
          empty_world_def)
qed

lemma sample_glob_constructed_nounique:
  "Glob_new ''linux'' sample_Minimatch (PList ps)
     (no_options\<lparr>opt_nounique := Some True, opt_nonull := Some True\<rparr>) empty_world
     = Inr ((sample_glob ps)\<lparr>nounique := True, nonull := True, matches := None\<rparr>,
            empty_world)"
proof -
  have "concat (map (\<lambda>p. [[p]]) ps) = map (\<lambda>p. [p]) ps"
    by (induction ps) simp_all
  moreover have "concat (map (\<lambda>p. [p]) ps) = ps"
    by (induction ps) simp_all
  ultimately show ?thesis
    by (simp add: Glob_new_def Let_def no_options_def truthy_def compile_all_sample
          foldl_push_sets comp_def sample_glob_def)
qed

text \<open>
  C3. The claim is that with \<open>nonull\<close> set the glob string of every alternative whose
  traversal found nothing is in the output. \<open>doNonull\<close> tests the size of the set at
  \<open>matches[i]\<close>; when \<open>nounique\<close> is unset that set is the one shared \<open>this.matches\<close>,
  which is empty only if no alternative found anything. For \<open>new Glob(['a.txt', 'zzz'],
  {nonull: true})\<close> on a file system with \<open>a.txt\<close> and no \<open>zzz\<close>, both walkers return the
  set at reference 0, \<open>zzz\<close> finds nothing, and the output of \<open>processSync\<close> is \<open>a.txt\<close>
  alone: the glob string \<open>zzz\<close> is missing. With \<open>nounique\<close> also set, where each
  alternative has a set of its own, the same input does yield \<open>zzz\<close>.
\<close>

theorem nonull_misses_unmatched_alternative:
  "Glob_new ''linux'' sample_Minimatch (PList [''a.txt'', ''zzz''])
     (no_options\<lparr>opt_nonull := Some True\<rparr>) empty_world
     = Inr ((sample_glob [''a.txt'', ''zzz''])\<lparr>nonull := True\<rparr>, constructed_world)
   \<and> sample_found ''zzz'' = []
   \<and> map_sum id fst
        (walkAllSync sample_walkSync ((sample_glob [''a.txt'', ''zzz''])\<lparr>nonull := True\<rparr>) 0
           [''a.txt'', ''zzz''] constructed_world)
       = Inr [0, 0]
   \<and> map_sum id fst
        (processSync code_compare sample_walkSync
           ((sample_glob [''a.txt'', ''zzz''])\<lparr>nonull := True\<rparr>) constructed_world)
       = Inr [Some ''a.txt'']
   \<and> Glob_new ''linux'' sample_Minimatch (PList [''a.txt'', ''zzz''])
       (no_options\<lparr>opt_nounique := Some True, opt_nonull := Some True\<rparr>) empty_world
       = Inr ((sample_glob [''a.txt'', ''zzz''])
                \<lparr>nounique := True, nonull := True, matches := None\<rparr>, empty_world)
   \<and> map_sum id fst
        (processSync code_compare sample_walkSync
           ((sample_glob [''a.txt'', ''zzz''])
              \<lparr>nounique := True, nonull := True, matches := None\<rparr>) empty_world)
       = Inr [Some ''a.txt'', Some ''a.txt'', Some ''zzz'', Some ''zzz'']"
proof -
  have a: "sample_found ''zzz'' = []"
    by (simp add: sample_found_def)
  have b: "map_sum id fst
        (walkAllSync sample_walkSync ((sample_glob [''a.txt'', ''zzz''])\<lparr>nonull := True\<rparr>) 0
           [''a.txt'', ''zzz''] constructed_world)
       = Inr [0, 0]"
    by (simp add: getWalker_def sample_walkSync_def sample_glob_def sample_found_def
          nth_js_def)
  have c: "map_sum id fst
        (processSync code_compare sample_walkSync
           ((sample_glob [''a.txt'', ''zzz''])\<lparr>nonull := True\<rparr>) constructed_world)
       = Inr [Some ''a.txt'']"
    by (simp add: processSync_def getWalker_def sample_walkSync_def sample_glob_def
          sample_found_def nth_js_def finish_doNonull_def doNonull_def finish_def
          Let_def set_size_def elems_set_add sort_js_def constructed_world_def
          new_Set_def empty_world_def)
  have d: "map_sum id fst
        (processSync code_compare sample_walkSync
           ((sample_glob [''a.txt'', ''zzz''])
              \<lparr>nounique := True, nonull := True, matches := None\<rparr>) empty_world)
       = Inr [Some ''a.txt'', Some ''a.txt'', Some ''zzz'', Some ''zzz'']"
    by (simp add: processSync_def getWalker_def sample_walkSync_def sample_glob_def
          sample_found_def nth_js_def finish_doNonull_def doNonull_def finish_def
          Let_def set_size_def elems_set_add sort_js_def SortCompare_def code_compare_def
          new_Set_def empty_world_def)
  from a b c d sample_glob_constructed_nonull [of "[''a.txt'', ''zzz'']"]
       sample_glob_constructed_nounique [of "[''a.txt'', ''zzz'']"]
  show ?thesis by blast
qed

end
